theory Spec2Isabelle
  imports Complex_Main
begin

section \<open>The todo list of \<open>App.js\<close>: values, storage and environment\<close>

text \<open>
  The application is one React component, \<open>App\<close>, with two helpers that read and write
  one slot of \<open>window.localStorage\<close>. The model follows the file top-down: the values
  that \<open>JSON.parse\<close> produces, the browser services the code calls, the two storage
  helpers, the id generator, and the event handlers of the component.
\<close>

subsection \<open>Strings and \<open>String.prototype.trim\<close>\<close>

text \<open>
  A string is a list of characters. \<open>trim\<close> removes white space and line terminators
  from both ends; of the characters HOL's \<open>char\<close> has, these are TAB, LF, VT, FF, CR,
  SP and NBSP.
\<close>

definition is_space :: "char \<Rightarrow> bool" where
  "is_space c \<longleftrightarrow> (of_char c :: nat) \<in> set [9, 10, 11, 12, 13, 32, 160]"

definition trim :: "string \<Rightarrow> string" where
  "trim s = rev (dropWhile is_space (rev (dropWhile is_space s)))"

subsection \<open>Numbers and decoded JSON values\<close>

text \<open>
  A JavaScript number is a finite value, \<open>NaN\<close> or one of the two infinities; all of them
  have \<open>typeof\<close> \<open>'number'\<close>. Finite values are kept by their numeric value (the two
  zeros are one value, as they are for \<open>===\<close>).
\<close>

datatype number = Finite rat | NaN | PosInfinity | NegInfinity

datatype json =
    JNull
  | JBool bool
  | JNumber number
  | JString string
  | JArray "json list"
  | JObject "(string \<times> json) list"

text \<open>\<open>typeof v\<close>; \<open>None\<close> is \<open>undefined\<close>, the value of a property that is not there.\<close>

fun typeof :: "json option \<Rightarrow> string" where
  "typeof None = ''undefined''"
| "typeof (Some JNull) = ''object''"
| "typeof (Some (JBool b)) = ''boolean''"
| "typeof (Some (JNumber n)) = ''number''"
| "typeof (Some (JString s)) = ''string''"
| "typeof (Some (JArray xs)) = ''object''"
| "typeof (Some (JObject kvs)) = ''object''"

text \<open>The truth value of \<open>v\<close> in a condition (\<open>ToBoolean\<close>).\<close>

fun truthy :: "json \<Rightarrow> bool" where
  "truthy JNull = False"
| "truthy (JBool b) = b"
| "truthy (JNumber n) = (n \<noteq> Finite 0 \<and> n \<noteq> NaN)"
| "truthy (JString s) = (s \<noteq> [])"
| "truthy (JArray xs) = True"
| "truthy (JObject kvs) = True"

text \<open>
  \<open>t.k\<close> for \<open>k\<close> one of \<open>id\<close>, \<open>text\<close>, \<open>createdAt\<close>: an own property of a decoded
  object, and \<open>undefined\<close> on an array (whose own properties are its indices and
  \<open>length\<close>) and on a primitive.
\<close>

fun get_prop :: "json \<Rightarrow> string \<Rightarrow> json option" where
  "get_prop (JObject kvs) k = map_of kvs k"
| "get_prop v k = None"

subsection \<open>The text held in a storage slot, \<open>JSON.parse\<close> and \<open>JSON.stringify\<close>\<close>

text \<open>
  \<open>localStorage\<close> holds strings. The code looks at a stored string in two ways only:
  whether it is empty (\<open>!raw\<close>), and what \<open>JSON.parse\<close> makes of it. A stored string is
  therefore kept as what it is to the code: the empty string, a non-empty string that is
  not JSON text, or JSON text together with the value it decodes to.
\<close>

datatype document = EmptyString | NotJSON | JSONText json

datatype error = SyntaxError | SecurityError | QuotaExceededError

fun JSON_parse :: "document \<Rightarrow> error + json" where
  "JSON_parse EmptyString = Inl SyntaxError"
| "JSON_parse NotJSON = Inl SyntaxError"
| "JSON_parse (JSONText v) = Inr v"

text \<open>
  What \<open>JSON.stringify\<close> writes for a value: a number that is not finite is written as
  \<open>null\<close>, everything else as itself.
\<close>

primrec serialized :: "json \<Rightarrow> json" where
  "serialized JNull = JNull"
| "serialized (JBool b) = JBool b"
| "serialized (JNumber n) = (case n of Finite q \<Rightarrow> JNumber (Finite q) | _ \<Rightarrow> JNull)"
| "serialized (JString s) = JString s"
| "serialized (JArray xs) = JArray (map serialized xs)"
| "serialized (JObject kvs) = JObject (map (map_prod id serialized) kvs)"

definition JSON_stringify :: "json \<Rightarrow> document" where
  "JSON_stringify v = JSONText (serialized v)"

subsection \<open>The browser\<close>

text \<open>
  Everything outside the component that the code reads or writes: the storage (with the
  two ways it can fail: access denied, and a write refused for lack of room), whether
  \<open>crypto.randomUUID\<close> exists, and the values that \<open>crypto.randomUUID()\<close>, \<open>Date.now()\<close>
  and \<open>Math.random().toString(16).slice(2)\<close> return, call after call.
\<close>

record world =
  storage_denied :: bool
  storage_full :: bool
  items :: "string \<rightharpoonup> document"
  has_randomUUID :: bool
  uuids :: "nat \<Rightarrow> string"
  uuid_calls :: nat
  clock :: "nat \<Rightarrow> int"
  clock_calls :: nat
  randoms :: "nat \<Rightarrow> string"
  random_calls :: nat

definition getItem :: "world \<Rightarrow> string \<Rightarrow> error + document option" where
  "getItem w k = (if storage_denied w then Inl SecurityError else Inr (items w k))"

definition setItem :: "world \<Rightarrow> string \<Rightarrow> document \<Rightarrow> error + world" where
  "setItem w k d =
     (if storage_denied w then Inl SecurityError
      else if storage_full w then Inl QuotaExceededError
      else Inr (w\<lparr>items := (items w)(k \<mapsto> d)\<rparr>))"

definition Date_now :: "world \<Rightarrow> int \<times> world" where
  "Date_now w = (clock w (clock_calls w), w\<lparr>clock_calls := Suc (clock_calls w)\<rparr>)"

definition randomUUID :: "world \<Rightarrow> string \<times> world" where
  "randomUUID w = (uuids w (uuid_calls w), w\<lparr>uuid_calls := Suc (uuid_calls w)\<rparr>)"

definition Math_random_hex :: "world \<Rightarrow> string \<times> world" where
  "Math_random_hex w = (randoms w (random_calls w), w\<lparr>random_calls := Suc (random_calls w)\<rparr>)"

text \<open>The decimal digits of an integer, as a template literal writes it.\<close>

fun show_nat :: "nat \<Rightarrow> string" where
  "show_nat n = (if n < 10 then [] else show_nat (n div 10)) @ [''0123456789'' ! (n mod 10)]"

declare show_nat.simps [simp del]

definition show_int :: "int \<Rightarrow> string" where
  "show_int i = (if i < 0 then CHR ''-'' # show_nat (nat (- i)) else show_nat (nat i))"

section \<open>The storage helpers\<close>

definition STORAGE_KEY :: string where
  "STORAGE_KEY = ''kavia.todos.v1''"

record todo =
  todo_id :: string
  todo_text :: string
  createdAt :: number

text \<open>
  \<open>cryptoRandomId\<close>: \<open>crypto.randomUUID()\<close> when there is one, else the time, an
  underscore and the random hexadecimal digits.
\<close>

definition cryptoRandomId :: "world \<Rightarrow> string \<times> world" where
  "cryptoRandomId w =
     (if has_randomUUID w then randomUUID w
      else
        (let (ms, w1) = Date_now w;
             (r, w2) = Math_random_hex w1
         in (show_int ms @ ''_'' @ r, w2)))"

text \<open>
  The callback of \<open>.map\<close> in \<open>loadTodosFromStorage\<close>: the three fields in the order the
  object literal evaluates them. A stored \<open>id\<close> or \<open>text\<close> is kept when its \<open>typeof\<close> is
  \<open>'string'\<close> and a stored \<open>createdAt\<close> when its \<open>typeof\<close> is \<open>'number'\<close> (the patterns
  \<open>Some (JString s)\<close> and \<open>Some (JNumber n)\<close>); otherwise a new id, the empty string and
  the current time take their place.
\<close>

definition normalize_entry :: "json \<Rightarrow> world \<Rightarrow> todo \<times> world" where
  "normalize_entry t w =
     (let (i, w1) = (case get_prop t ''id'' of
                       Some (JString s) \<Rightarrow> (s, w)
                     | _ \<Rightarrow> cryptoRandomId w);
          tx = (case get_prop t ''text'' of
                  Some (JString s) \<Rightarrow> s
                | _ \<Rightarrow> []);
          (c, w2) = (case get_prop t ''createdAt'' of
                       Some (JNumber n) \<Rightarrow> (n, w1)
                     | _ \<Rightarrow> (let (ms, w') = Date_now w1 in (Finite (of_int ms), w')))
      in (\<lparr>todo_id = i, todo_text = tx, createdAt = c\<rparr>, w2))"

text \<open>\<open>xs.map(f)\<close> for a callback that calls the browser: left to right.\<close>

fun map_world :: "('a \<Rightarrow> world \<Rightarrow> 'b \<times> world) \<Rightarrow> 'a list \<Rightarrow> world \<Rightarrow> 'b list \<times> world" where
  "map_world f [] w = ([], w)"
| "map_world f (x # xs) w =
     (let (y, w1) = f x w;
          (ys, w2) = map_world f xs w1
      in (y # ys, w2))"

text \<open>The two filters of \<open>loadTodosFromStorage\<close>.\<close>

definition is_record :: "json \<Rightarrow> bool" where
  "is_record t \<longleftrightarrow> truthy t \<and> typeof (Some t) = ''object''"

definition has_text :: "todo \<Rightarrow> bool" where
  "has_text t \<longleftrightarrow> length (trim (todo_text t)) > 0"

text \<open>
  The body of the \<open>try\<close> block of \<open>loadTodosFromStorage\<close>: \<open>Inl\<close> is an exception thrown
  by \<open>getItem\<close> or \<open>JSON.parse\<close>.
\<close>

definition load_try :: "world \<Rightarrow> error + (todo list \<times> world)" where
  "load_try w =
     (case getItem w STORAGE_KEY of
        Inl e \<Rightarrow> Inl e
      | Inr raw \<Rightarrow>
          (case raw of
             None \<Rightarrow> Inr ([], w)
           | Some d \<Rightarrow>
               if d = EmptyString then Inr ([], w)
               else
                 (case JSON_parse d of
                    Inl e \<Rightarrow> Inl e
                  | Inr parsed \<Rightarrow>
                      (case parsed of
                         JArray xs \<Rightarrow>
                           (let (ts, w1) = map_world normalize_entry (filter is_record xs) w
                            in Inr (filter has_text ts, w1))
                       | _ \<Rightarrow> Inr ([], w)))))"

text \<open>\<open>loadTodosFromStorage\<close>: the \<open>catch\<close> turns every exception into the empty list.\<close>

definition loadTodosFromStorage :: "world \<Rightarrow> todo list \<times> world" where
  "loadTodosFromStorage w = (case load_try w of Inl e \<Rightarrow> ([], w) | Inr r \<Rightarrow> r)"

text \<open>The array of todos as the value that \<open>JSON.stringify\<close> is given.\<close>

definition todo_value :: "todo \<Rightarrow> json" where
  "todo_value t =
     JObject [(''id'', JString (todo_id t)),
              (''text'', JString (todo_text t)),
              (''createdAt'', JNumber (createdAt t))]"

definition todos_value :: "todo list \<Rightarrow> json" where
  "todos_value ts = JArray (map todo_value ts)"

text \<open>\<open>saveTodosToStorage\<close>: an exception of \<open>setItem\<close> is ignored, the storage stays as it was.\<close>

definition saveTodosToStorage :: "world \<Rightarrow> todo list \<Rightarrow> world" where
  "saveTodosToStorage w ts =
     (case setItem w STORAGE_KEY (JSON_stringify (todos_value ts)) of
        Inl e \<Rightarrow> w
      | Inr w1 \<Rightarrow> w1)"

section \<open>The component\<close>

text \<open>The state of \<open>App\<close>: one field for each \<open>useState\<close>.\<close>

record app =
  theme :: string
  todos :: "todo list"
  newText :: string
  editingId :: "string option"
  editingText :: string

text \<open>The first render: \<open>todos\<close> is what the storage gives, the rest the constants.\<close>

definition init :: "world \<Rightarrow> app \<times> world" where
  "init w =
     (let (ts, w1) = loadTodosFromStorage w
      in (\<lparr>theme = ''light'', todos = ts, newText = [], editingId = None, editingText = []\<rparr>, w1))"

definition toggleTheme :: "app \<Rightarrow> app" where
  "toggleTheme s = s\<lparr>theme := (if theme s = ''light'' then ''dark'' else ''light'')\<rparr>"

definition addTodo :: "app \<Rightarrow> world \<Rightarrow> app \<times> world" where
  "addTodo s w =
     (let tx = trim (newText s)
      in if tx = [] then (s, w)
         else
           (let (i, w1) = cryptoRandomId w;
                (ms, w2) = Date_now w1
            in (s\<lparr>todos := \<lparr>todo_id = i, todo_text = tx, createdAt = Finite (of_int ms)\<rparr> # todos s,
                  newText := []\<rparr>, w2)))"

definition startEdit :: "todo \<Rightarrow> app \<Rightarrow> app" where
  "startEdit t s = s\<lparr>editingId := Some (todo_id t), editingText := todo_text t\<rparr>"

definition cancelEdit :: "app \<Rightarrow> app" where
  "cancelEdit s = s\<lparr>editingId := None, editingText := []\<rparr>"

definition saveEdit :: "string \<Rightarrow> app \<Rightarrow> app" where
  "saveEdit i s =
     (let next = trim (editingText s)
      in if next = [] then s
         else s\<lparr>todos := map (\<lambda>t. if todo_id t = i then t\<lparr>todo_text := next\<rparr> else t) (todos s),
                editingId := None,
                editingText := []\<rparr>)"

definition deleteTodo :: "string \<Rightarrow> app \<Rightarrow> app" where
  "deleteTodo i s =
     (let s1 = s\<lparr>todos := filter (\<lambda>t. todo_id t \<noteq> i) (todos s)\<rparr>
      in if editingId s = Some i then cancelEdit s1 else s1)"

definition onEditKeyDown :: "string \<Rightarrow> string \<Rightarrow> app \<Rightarrow> app" where
  "onEditKeyDown key i s =
     (if key = ''Enter'' then saveEdit i s
      else if key = ''Escape'' then cancelEdit s
      else s)"

text \<open>
  What the user can do, one constructor for each handler the rendered page attaches:
  typing in either field, submitting the form, the four buttons of a row, a key in the
  edit field, and the theme button.
\<close>

datatype event =
    ChangeNew string
  | Submit
  | ClickEdit todo
  | ChangeEdit string
  | KeyDown string string
  | ClickSave string
  | ClickCancel
  | ClickDelete string
  | ClickTheme

fun dispatch :: "event \<Rightarrow> app \<Rightarrow> world \<Rightarrow> app \<times> world" where
  "dispatch (ChangeNew v) s w = (s\<lparr>newText := v\<rparr>, w)"
| "dispatch Submit s w = addTodo s w"
| "dispatch (ClickEdit t) s w = (startEdit t s, w)"
| "dispatch (ChangeEdit v) s w = (s\<lparr>editingText := v\<rparr>, w)"
| "dispatch (KeyDown key i) s w = (onEditKeyDown key i s, w)"
| "dispatch (ClickSave i) s w = (saveEdit i s, w)"
| "dispatch ClickCancel s w = (cancelEdit s, w)"
| "dispatch (ClickDelete i) s w = (deleteTodo i s, w)"
| "dispatch ClickTheme s w = (toggleTheme s, w)"

section \<open>Properties and examples\<close>

subsection \<open>What the claims speak of\<close>

text \<open>A number that \<open>JSON.stringify\<close> writes as a number.\<close>

definition finite_number :: "number \<Rightarrow> bool" where
  "finite_number n = (case n of Finite q \<Rightarrow> True | _ \<Rightarrow> False)"

text \<open>The text of an item is not blank, and it is its own trim.\<close>

definition trimmed_text :: "todo \<Rightarrow> bool" where
  "trimmed_text t \<longleftrightarrow> trim (todo_text t) \<noteq> [] \<and> trim (todo_text t) = todo_text t"

definition ids :: "todo list \<Rightarrow> string list" where
  "ids ts = map todo_id ts"

text \<open>
  The \<open>id\<close> and the \<open>text\<close> of a stored entry as \<open>normalize_entry\<close> reads them, and the entries
  of a stored array that pass both filters of \<open>loadTodosFromStorage\<close>.
\<close>

definition stored_id :: "json \<Rightarrow> string option" where
  "stored_id x = (case get_prop x ''id'' of Some (JString s) \<Rightarrow> Some s | _ \<Rightarrow> None)"

definition stored_text :: "json \<Rightarrow> string" where
  "stored_text x = (case get_prop x ''text'' of Some (JString s) \<Rightarrow> s | _ \<Rightarrow> [])"

definition survives :: "json \<Rightarrow> bool" where
  "survives x \<longleftrightarrow> is_record x \<and> trim (stored_text x) \<noteq> []"

text \<open>
  The ids of the list that \<open>loadTodosFromStorage\<close> makes of a stored array, by where they
  come from: the string ids stored in the entries that pass both filters, and the ids
  that \<open>cryptoRandomId\<close> returns for those of them that store no string id. The browser
  moves on with every object entry, as in \<open>map_world\<close>.
\<close>

definition kept_ids :: "json list \<Rightarrow> string list" where
  "kept_ids xs = map (\<lambda>x. the (stored_id x)) (filter (\<lambda>x. survives x \<and> stored_id x \<noteq> None) xs)"

fun drawn_ids :: "json list \<Rightarrow> world \<Rightarrow> string list" where
  "drawn_ids [] w = []"
| "drawn_ids (x # xs) w =
     (if survives x \<and> stored_id x = None then [fst (cryptoRandomId w)] else [])
     @ drawn_ids xs (if is_record x then snd (normalize_entry x w) else w)"

text \<open>A sequence of events, and the events of adding one text after the other.\<close>

fun run :: "event list \<Rightarrow> app \<Rightarrow> world \<Rightarrow> app \<times> world" where
  "run [] s w = (s, w)"
| "run (ev # evs) s w = (let (s1, w1) = dispatch ev s w in run evs s1 w1)"

definition adds :: "string list \<Rightarrow> event list" where
  "adds vs = concat (map (\<lambda>v. [ChangeNew v, Submit]) vs)"

subsection \<open>Example browsers and states\<close>

text \<open>
  A browser whose storage works and holds \<open>st\<close>, with \<open>crypto.randomUUID\<close>, whose
  \<open>n\<close>-th id is \<open>u\<close> followed by \<open>n\<close> and whose clock advances by one at each reading.
\<close>

definition browser :: "(string \<rightharpoonup> document) \<Rightarrow> world" where
  "browser st =
     \<lparr>storage_denied = False, storage_full = False, items = st,
      has_randomUUID = True, uuids = (\<lambda>n. ''u'' @ show_nat n), uuid_calls = 0,
      clock = (\<lambda>n. 1700000000000 + int n), clock_calls = 0,
      randoms = (\<lambda>n. show_nat n), random_calls = 0\<rparr>"

definition stored :: "json \<Rightarrow> world" where
  "stored v = browser [STORAGE_KEY \<mapsto> JSONText v]"

definition entry :: "string \<Rightarrow> string \<Rightarrow> rat \<Rightarrow> json" where
  "entry i tx c = JObject [(''id'', JString i), (''text'', JString tx), (''createdAt'', JNumber (Finite c))]"

definition item :: "string \<Rightarrow> string \<Rightarrow> rat \<Rightarrow> todo" where
  "item i tx c = \<lparr>todo_id = i, todo_text = tx, createdAt = Finite c\<rparr>"

definition state0 :: "todo list \<Rightarrow> app" where
  "state0 ts = \<lparr>theme = ''light'', todos = ts, newText = [], editingId = None, editingText = []\<rparr>"

section \<open>Facts about the helpers\<close>

subsection \<open>\<open>trim\<close>\<close>

text \<open>
  A string is its own trim exactly when it is empty or neither starts nor ends with white
  space, and a trimmed string is such a string: trimming twice is trimming once.
\<close>

lemma dropWhile_keeps_last: "dropWhile P xs \<noteq> [] \<Longrightarrow> last (dropWhile P xs) = last xs"
  by (induction xs) (auto split: if_splits)

lemma trim_fixed: "s = [] \<or> (\<not> is_space (hd s) \<and> \<not> is_space (last s)) \<Longrightarrow> trim s = s"
  by (metis trim_def rev.simps(1) dropWhile_eq_self_iff hd_rev rev_rev_ident)

lemma trim_ends: "trim s \<noteq> [] \<Longrightarrow> \<not> is_space (hd (trim s)) \<and> \<not> is_space (last (trim s))"
  by (metis dropWhile_idem dropWhile_keeps_last hd_dropWhile last_rev
    rev.simps(1) rev_swap trim_def)

lemma trim_idem: "trim (trim s) = trim s"
  using trim_fixed trim_ends by blast

lemma trimmed_text_trim: "trim v \<noteq> [] \<Longrightarrow> trimmed_text (t\<lparr>todo_text := trim v\<rparr>)"
  by (simp add: trimmed_text_def trim_idem)

lemma has_text_trim: "trim v \<noteq> [] \<Longrightarrow> has_text (t\<lparr>todo_text := trim v\<rparr>)"
  by (simp add: has_text_def trim_idem)

subsection \<open>Reading stored entries\<close>

text \<open>
  The first filter keeps arrays and objects. The text of a normalized entry is the stored
  text whatever the browser answers, and so is its id when a string id is stored.
\<close>

lemma is_record_iff: "is_record x \<longleftrightarrow> (\<exists>xs. x = JArray xs) \<or> (\<exists>kvs. x = JObject kvs)"
  by (cases x) (simp_all add: is_record_def)

lemma typeof_string_iff: "typeof v = ''string'' \<longleftrightarrow> (\<exists>s. v = Some (JString s))"
  by (cases v rule: typeof.cases) simp_all

lemma typeof_number_iff: "typeof v = ''number'' \<longleftrightarrow> (\<exists>n. v = Some (JNumber n))"
  by (cases v rule: typeof.cases) simp_all

lemma cryptoRandomId_fallback:
  "fst (cryptoRandomId ((browser Map.empty)\<lparr>has_randomUUID := False\<rparr>)) = ''1700000000000_0''"
  by (simp add: cryptoRandomId_def browser_def Date_now_def Math_random_hex_def show_int_def
      show_nat.simps)

lemma normalize_text: "todo_text (fst (normalize_entry x w)) = stored_text x"
  by (simp add: normalize_entry_def stored_text_def split_beta Let_def)

lemma normalize_id: "stored_id x = Some i \<Longrightarrow> todo_id (fst (normalize_entry x w)) = i"
  by (auto simp: normalize_entry_def stored_id_def split_beta Let_def split: option.splits json.splits)

lemma length_map_world: "length (fst (map_world f xs w)) = length xs"
  by (induction xs arbitrary: w) (simp_all add: split_beta Let_def)

lemma map_world_texts:
  "map todo_text (fst (map_world normalize_entry xs w)) = map stored_text xs"
  by (induction xs arbitrary: w) (simp_all add: split_beta Let_def normalize_text)

lemma map_world_ids:
  "\<forall>x\<in>set xs. trim (stored_text x) \<noteq> [] \<longrightarrow> stored_id x \<noteq> None \<Longrightarrow>
   ids (filter has_text (fst (map_world normalize_entry xs w))) =
   map (\<lambda>x. the (stored_id x)) (filter (\<lambda>x. trim (stored_text x) \<noteq> []) xs)"
  by (induction xs arbitrary: w)
     (auto simp: split_beta Let_def normalize_text has_text_def ids_def normalize_id)

lemma distinct_the:
  "\<forall>x\<in>set ys. f x \<noteq> None \<Longrightarrow> distinct (map f ys) \<Longrightarrow> distinct (map (\<lambda>x. the (f x)) ys)"
  by (induction ys) (auto simp: image_iff)

subsection \<open>\<open>loadTodosFromStorage\<close> by cases\<close>

text \<open>
  Either the storage can be read and holds the text of an array, and the result is the
  normalized object entries that have text; or the result is empty and the browser is
  as it was.
\<close>

lemma load_array:
  "\<not> storage_denied w \<Longrightarrow> items w STORAGE_KEY = Some (JSONText (JArray xs)) \<Longrightarrow>
   fst (loadTodosFromStorage w) = filter has_text (fst (map_world normalize_entry (filter is_record xs) w))"
  by (simp add: loadTodosFromStorage_def load_try_def getItem_def split_beta Let_def)

lemma load_other:
  assumes "storage_denied w \<or> (\<forall>xs. items w STORAGE_KEY \<noteq> Some (JSONText (JArray xs)))"
  shows "loadTodosFromStorage w = ([], w)"
proof (cases "storage_denied w")
  case True
  then show ?thesis by (simp add: loadTodosFromStorage_def load_try_def getItem_def)
next
  case False
  with assms have no: "\<forall>xs. items w STORAGE_KEY \<noteq> Some (JSONText (JArray xs))" by simp
  show ?thesis
  proof (cases "items w STORAGE_KEY")
    case None
    with False show ?thesis by (simp add: loadTodosFromStorage_def load_try_def getItem_def)
  next
    case (Some d)
    with no have "\<forall>xs. d \<noteq> JSONText (JArray xs)" by simp
    with False Some show ?thesis
      by (cases d) (auto simp: loadTodosFromStorage_def load_try_def getItem_def split: json.splits)
  qed
qed

lemma load_cases:
  obtains (array) xs where "\<not> storage_denied w" "items w STORAGE_KEY = Some (JSONText (JArray xs))"
  | (other) "storage_denied w \<or> (\<forall>xs. items w STORAGE_KEY \<noteq> Some (JSONText (JArray xs)))"
  by blast

lemma load_has_text: "list_all has_text (fst (loadTodosFromStorage w))"
proof (cases w rule: load_cases)
  case (array xs)
  then show ?thesis by (simp add: load_array list_all_iff)
next
  case other
  then show ?thesis by (simp add: load_other)
qed

lemma load_texts_stored:
  assumes "items w STORAGE_KEY = Some (JSONText (JArray xs))"
  shows "set (map todo_text (fst (loadTodosFromStorage w))) \<subseteq> set (map stored_text xs)"
proof (cases "storage_denied w")
  case True
  then show ?thesis by (simp add: load_other)
next
  case False
  let ?ns = "fst (map_world normalize_entry (filter is_record xs) w)"
  have eq: "fst (loadTodosFromStorage w) = filter has_text ?ns"
    using False assms by (rule load_array)
  have "set (map todo_text (filter has_text ?ns)) \<subseteq> set (map todo_text ?ns)"
    by auto
  also have "\<dots> = set (map stored_text (filter is_record xs))"
    by (simp only: map_world_texts)
  also have "\<dots> \<subseteq> set (map stored_text xs)" by auto
  finally show ?thesis unfolding eq .
qed

lemma load_trimmed:
  assumes "items w STORAGE_KEY = Some (JSONText (JArray xs))"
    and "\<forall>x\<in>set xs. trim (stored_text x) = stored_text x"
  shows "list_all trimmed_text (fst (loadTodosFromStorage w))"
proof -
  have "trimmed_text t" if "t \<in> set (fst (loadTodosFromStorage w))" for t
  proof -
    from that have "todo_text t \<in> set (map todo_text (fst (loadTodosFromStorage w)))" by simp
    with load_texts_stored [OF assms(1)] have "todo_text t \<in> set (map stored_text xs)" by blast
    with assms(2) have "trim (todo_text t) = todo_text t" by auto
    moreover from load_has_text that have "has_text t" by (simp add: list_all_iff)
    ultimately show ?thesis by (simp add: trimmed_text_def has_text_def)
  qed
  then show ?thesis by (simp add: list_all_iff)
qed

lemma load_ids:
  assumes "\<not> storage_denied w" "items w STORAGE_KEY = Some (JSONText (JArray xs))"
    and "\<forall>x\<in>set xs. survives x \<longrightarrow> stored_id x \<noteq> None"
  shows "ids (fst (loadTodosFromStorage w)) = map (\<lambda>x. the (stored_id x)) (filter survives xs)"
proof -
  have "\<forall>x\<in>set (filter is_record xs). trim (stored_text x) \<noteq> [] \<longrightarrow> stored_id x \<noteq> None"
    using assms(3) by (simp add: survives_def)
  then have "ids (filter has_text (fst (map_world normalize_entry (filter is_record xs) w))) =
     map (\<lambda>x. the (stored_id x)) (filter (\<lambda>x. trim (stored_text x) \<noteq> []) (filter is_record xs))"
    by (rule map_world_ids)
  moreover have "filter (\<lambda>x. trim (stored_text x) \<noteq> []) (filter is_record xs) = filter survives xs"
    by (induction xs) (auto simp: survives_def)
  ultimately show ?thesis using assms(1,2) by (simp add: load_array)
qed

text \<open>
  The loaded list, exactly: its texts are the stored texts of the entries that pass both
  filters, and its ids are the stored string ids of these entries together with the ids
  drawn for those of them that store none.
\<close>

lemma normalize_id_drawn:
  "stored_id x = None \<Longrightarrow> todo_id (fst (normalize_entry x w)) = fst (cryptoRandomId w)"
  by (auto simp: normalize_entry_def stored_id_def split_beta Let_def split: option.splits json.splits)

lemma normalize_has_text: "has_text (fst (normalize_entry x w)) \<longleftrightarrow> trim (stored_text x) \<noteq> []"
  by (simp add: has_text_def normalize_text)

lemma kept_ids_Cons:
  "kept_ids (x # xs) =
     (if survives x \<and> stored_id x \<noteq> None then [the (stored_id x)] else []) @ kept_ids xs"
  by (simp add: kept_ids_def)

lemma kept_ids_Nil: "kept_ids [] = []"
  by (simp add: kept_ids_def)

lemma loaded_ids_step:
  "ids (filter has_text (fst (map_world normalize_entry (filter is_record (x # xs)) w))) =
     (if survives x then [case stored_id x of Some s \<Rightarrow> s | None \<Rightarrow> fst (cryptoRandomId w)] else [])
     @ ids (filter has_text (fst (map_world normalize_entry (filter is_record xs)
              (if is_record x then snd (normalize_entry x w) else w))))"
  by (auto simp: split_beta Let_def ids_def survives_def normalize_has_text normalize_id
      normalize_id_drawn split: option.splits)

lemma loaded_ids_split:
  "set (ids (filter has_text (fst (map_world normalize_entry (filter is_record xs) w))))
     = set (kept_ids xs) \<union> set (drawn_ids xs w) \<and>
   (distinct (ids (filter has_text (fst (map_world normalize_entry (filter is_record xs) w)))) \<longleftrightarrow>
      distinct (kept_ids xs) \<and> distinct (drawn_ids xs w) \<and>
      set (kept_ids xs) \<inter> set (drawn_ids xs w) = {})"
proof (induction xs arbitrary: w)
  case Nil
  show ?case by (simp add: kept_ids_Nil ids_def)
next
  case (Cons x xs)
  let ?w1 = "if is_record x then snd (normalize_entry x w) else w"
  note IH = Cons.IH [of ?w1]
  show ?case
  proof (cases "survives x")
    case False
    with IH show ?thesis
      by (simp only: loaded_ids_step kept_ids_Cons drawn_ids.simps) simp
  next
    case True
    show ?thesis
    proof (cases "stored_id x")
      case None
      with True IH show ?thesis
        by (simp only: loaded_ids_step kept_ids_Cons drawn_ids.simps) auto
    next
      case (Some s)
      with True IH show ?thesis
        by (simp only: loaded_ids_step kept_ids_Cons drawn_ids.simps) auto
    qed
  qed
qed

lemma load_ids_exact:
  assumes "\<not> storage_denied w" "items w STORAGE_KEY = Some (JSONText (JArray xs))"
  shows "distinct (ids (fst (loadTodosFromStorage w))) \<longleftrightarrow>
      distinct (kept_ids xs) \<and> distinct (drawn_ids xs w) \<and>
      set (kept_ids xs) \<inter> set (drawn_ids xs w) = {}"
  using loaded_ids_split [of xs w] by (simp only: load_array [OF assms])



subsection \<open>What \<open>saveTodosToStorage\<close> leaves in the storage\<close>

lemma normalize_todo_value:
  "createdAt t = Finite q \<Longrightarrow> normalize_entry (serialized (todo_value t)) w = (t, w)"
  by (simp add: normalize_entry_def todo_value_def)

lemma is_record_todo_value: "is_record (serialized (todo_value t))"
  by (simp add: is_record_def todo_value_def)

lemma stored_text_saved: "stored_text (serialized (todo_value t)) = todo_text t"
  by (simp add: stored_text_def todo_value_def)

lemma map_world_saved:
  "\<forall>t \<in> set ts. finite_number (createdAt t) \<Longrightarrow>
   map_world normalize_entry (map (\<lambda>t. serialized (todo_value t)) ts) w = (ts, w)"
  by (induction ts) (auto simp: normalize_todo_value finite_number_def split: number.splits)

lemma items_after_save:
  "\<not> storage_denied w \<Longrightarrow> \<not> storage_full w \<Longrightarrow>
   items (saveTodosToStorage w ts) STORAGE_KEY = Some (JSONText (JArray (map (\<lambda>t. serialized (todo_value t)) ts)))
   \<and> \<not> storage_denied (saveTodosToStorage w ts)"
  by (simp add: saveTodosToStorage_def setItem_def JSON_stringify_def todos_value_def comp_def)

lemma save_failed:
  "storage_denied w \<or> storage_full w \<Longrightarrow> saveTodosToStorage w ts = w"
  by (auto simp: saveTodosToStorage_def setItem_def)

subsection \<open>The handlers and the list\<close>

lemma addTodo_blank: "trim (newText s) = [] \<Longrightarrow> addTodo s w = (s, w)"
  by (simp add: addTodo_def)

lemma addTodo_todos:
  "trim (newText s) \<noteq> [] \<Longrightarrow>
   todos (fst (addTodo s w)) =
     \<lparr>todo_id = fst (cryptoRandomId w), todo_text = trim (newText s),
      createdAt = Finite (of_int (fst (Date_now (snd (cryptoRandomId w)))))\<rparr> # todos s"
  by (simp add: addTodo_def split_beta Let_def)

lemma addTodo_newText: "trim (newText s) \<noteq> [] \<Longrightarrow> newText (fst (addTodo s w)) = []"
  by (simp add: addTodo_def split_beta Let_def)

lemma saveEdit_blank: "trim (editingText s) = [] \<Longrightarrow> saveEdit i s = s"
  by (simp add: saveEdit_def)

lemma saveEdit_todos:
  "trim (editingText s) \<noteq> [] \<Longrightarrow>
   todos (saveEdit i s) =
     map (\<lambda>t. if todo_id t = i then t\<lparr>todo_text := trim (editingText s)\<rparr> else t) (todos s)"
  by (simp add: saveEdit_def Let_def)

lemma deleteTodo_todos: "todos (deleteTodo i s) = filter (\<lambda>t. todo_id t \<noteq> i) (todos s)"
  by (simp add: deleteTodo_def cancelEdit_def Let_def)

lemma cancelEdit_todos: "todos (cancelEdit s) = todos s"
  by (simp add: cancelEdit_def)

lemma retext_fields:
  "map todo_id (map (\<lambda>t. if todo_id t = i then t\<lparr>todo_text := n\<rparr> else t) ts) = map todo_id ts"
  "map createdAt (map (\<lambda>t. if todo_id t = i then t\<lparr>todo_text := n\<rparr> else t) ts) = map createdAt ts"
  by (induction ts) auto

lemma retext_absent:
  "i \<notin> set (ids ts) \<Longrightarrow> map (\<lambda>t. if todo_id t = i then t\<lparr>todo_text := n\<rparr> else t) ts = ts"
  by (induction ts) (auto simp: ids_def)

lemma retext_distinct:
  assumes "distinct (ids ts)" and "i \<in> set (ids ts)"
  shows "\<exists>xs t ys. ts = xs @ t # ys \<and> todo_id t = i \<and>
           map (\<lambda>t. if todo_id t = i then t\<lparr>todo_text := n\<rparr> else t) ts
             = xs @ t\<lparr>todo_text := n\<rparr> # ys"
proof -
  from assms(2) obtain t where "t \<in> set ts" "todo_id t = i" by (auto simp: ids_def)
  then obtain xs ys where ts: "ts = xs @ t # ys" by (auto dest: split_list)
  with assms(1) \<open>todo_id t = i\<close> have "i \<notin> set (ids xs)" "i \<notin> set (ids ys)"
    by (auto simp: ids_def)
  then have "map (\<lambda>t. if todo_id t = i then t\<lparr>todo_text := n\<rparr> else t) xs = xs"
    "map (\<lambda>t. if todo_id t = i then t\<lparr>todo_text := n\<rparr> else t) ys = ys"
    by (simp_all add: retext_absent)
  with ts \<open>todo_id t = i\<close> show ?thesis by auto
qed

lemma filter_out_distinct:
  assumes "distinct (ids ts)" and "i \<in> set (ids ts)"
  shows "\<exists>xs t ys. ts = xs @ t # ys \<and> todo_id t = i \<and> filter (\<lambda>t. todo_id t \<noteq> i) ts = xs @ ys"
proof -
  from assms(2) obtain t where "t \<in> set ts" "todo_id t = i" by (auto simp: ids_def)
  then obtain xs ys where ts: "ts = xs @ t # ys" by (auto dest: split_list)
  with assms(1) \<open>todo_id t = i\<close> have "i \<notin> todo_id ` set xs" "i \<notin> todo_id ` set ys"
    by (auto simp: ids_def)
  then have "filter (\<lambda>t. todo_id t \<noteq> i) xs = xs" "filter (\<lambda>t. todo_id t \<noteq> i) ys = ys"
    by (auto simp: filter_id_conv)
  with ts \<open>todo_id t = i\<close> show ?thesis by auto
qed

lemma dispatch_preserves:
  assumes P: "\<And>t v. trim v \<noteq> [] \<Longrightarrow> P (t\<lparr>todo_text := trim v\<rparr>)"
    and inv: "list_all P (todos s)"
  shows "list_all P (todos (fst (dispatch ev s w)))"
proof (cases ev)
  case Submit
  show ?thesis
  proof (cases "trim (newText s) = []")
    case True
    with Submit inv show ?thesis by (simp add: addTodo_blank)
  next
    case False
    let ?i = "fst (cryptoRandomId w)"
    let ?c = "Finite (of_int (fst (Date_now (snd (cryptoRandomId w)))))"
    have "P (\<lparr>todo_id = ?i, todo_text = [], createdAt = ?c\<rparr>\<lparr>todo_text := trim (newText s)\<rparr>)"
      using False by (rule P)
    with Submit inv False show ?thesis by (simp add: addTodo_todos)
  qed
next
  case (ClickSave i)
  show ?thesis
  proof (cases "trim (editingText s) = []")
    case True
    with ClickSave inv show ?thesis by (simp add: saveEdit_blank)
  next
    case False
    with ClickSave inv show ?thesis
      by (auto simp: saveEdit_todos list_all_iff intro: P)
  qed
next
  case (KeyDown key i)
  show ?thesis
  proof (cases "trim (editingText s) = []")
    case True
    with KeyDown inv show ?thesis by (simp add: onEditKeyDown_def saveEdit_blank cancelEdit_todos)
  next
    case False
    with KeyDown inv show ?thesis
      by (auto simp: onEditKeyDown_def cancelEdit_todos saveEdit_todos list_all_iff intro: P)
  qed
next
  case (ClickDelete i)
  with inv show ?thesis by (auto simp: deleteTodo_todos list_all_iff)
qed (use inv in \<open>simp_all add: startEdit_def cancelEdit_def toggleTheme_def\<close>)

lemma dispatch_ids:
  assumes "distinct (ids (todos s))"
    and "ev = Submit \<longrightarrow> fst (cryptoRandomId w) \<notin> set (ids (todos s))"
  shows "distinct (ids (todos (fst (dispatch ev s w))))"
proof (cases ev)
  case Submit
  with assms show ?thesis
    by (cases "trim (newText s) = []") (simp_all add: addTodo_blank addTodo_todos ids_def)
next
  case (ClickSave i)
  have "ids (todos (saveEdit i s)) = ids (todos s)"
    by (cases "trim (editingText s) = []") (simp_all add: saveEdit_blank saveEdit_todos ids_def comp_def if_distrib cong: if_cong)
  with ClickSave assms(1) show ?thesis by simp
next
  case (KeyDown key i)
  have "ids (todos (saveEdit i s)) = ids (todos s)"
    by (cases "trim (editingText s) = []") (simp_all add: saveEdit_blank saveEdit_todos ids_def comp_def if_distrib cong: if_cong)
  with KeyDown assms(1) show ?thesis by (simp add: onEditKeyDown_def cancelEdit_todos)
next
  case (ClickDelete i)
  with assms(1) show ?thesis by (simp add: deleteTodo_todos ids_def distinct_map_filter)
qed (use assms(1) in \<open>simp_all add: startEdit_def cancelEdit_def toggleTheme_def\<close>)

lemma adds_single: "adds [v] = [ChangeNew v, Submit]"
  by (simp add: adds_def)

lemma run_add_single: "run (adds [v]) s w = addTodo (s\<lparr>newText := v\<rparr>) w"
  by (simp add: adds_single split_beta)

lemma run_add_one:
  assumes "trim v \<noteq> []"
  shows "\<exists>t. todos (fst (run (adds [v]) s w)) = t # todos s \<and> todo_text t = trim v"
proof -
  from assms have "trim (newText (s\<lparr>newText := v\<rparr>)) \<noteq> []" by simp
  then show ?thesis
    unfolding run_add_single by (simp add: addTodo_todos)
qed

lemma run_adds_Cons:
  "run (adds (v # vs)) s w =
     run (adds vs) (fst (run (adds [v]) s w)) (snd (run (adds [v]) s w))"
  by (simp add: adds_def split_beta)

lemma run_adds:
  assumes "\<forall>v\<in>set vs. trim v \<noteq> []"
  shows "\<exists>news. todos (fst (run (adds vs) s w)) = news @ todos s
            \<and> map todo_text news = rev (map trim vs)"
  using assms
proof (induction vs arbitrary: s w)
  case Nil
  then show ?case by (simp add: adds_def)
next
  case (Cons v vs)
  let ?s1 = "fst (run (adds [v]) s w)" and ?w1 = "snd (run (adds [v]) s w)"
  from Cons.prems have "trim v \<noteq> []" by simp
  then obtain t where t: "todos ?s1 = t # todos s" "todo_text t = trim v"
    using run_add_one by blast
  from Cons.prems have "\<forall>v\<in>set vs. trim v \<noteq> []" by simp
  then obtain news where n: "todos (fst (run (adds vs) ?s1 ?w1)) = news @ todos ?s1"
      "map todo_text news = rev (map trim vs)"
    using Cons.IH by blast
  have "run (adds (v # vs)) s w = run (adds vs) ?s1 ?w1"
    by (rule run_adds_Cons)
  with t n have "todos (fst (run (adds (v # vs)) s w)) = (news @ [t]) @ todos s
      \<and> map todo_text (news @ [t]) = rev (map trim (v # vs))"
    by simp
  then show ?case by blast
qed

section \<open>Saving and loading\<close>

text \<open>
  C1 (as amended). For every list of todo items whose texts are not blank and whose
  \<open>createdAt\<close> is a finite number, in a browser whose storage can be read and accepts the
  write, \<open>saveTodosToStorage\<close> followed by \<open>loadTodosFromStorage\<close> returns the list
  itself: the same items in the same order, with the same id, text and \<open>createdAt\<close>.
\<close>

theorem save_load_roundtrip:
  assumes "\<not> storage_denied w" and "\<not> storage_full w"
    and "\<forall>t\<in>set ts. has_text t \<and> finite_number (createdAt t)"
  shows "fst (loadTodosFromStorage (saveTodosToStorage w ts)) = ts"
proof -
  let ?w = "saveTodosToStorage w ts"
  let ?xs = "map (\<lambda>t. serialized (todo_value t)) ts"
  have st: "\<not> storage_denied ?w" "items ?w STORAGE_KEY = Some (JSONText (JArray ?xs))"
    using items_after_save [OF assms(1,2)] by simp_all
  have "filter is_record ?xs = ?xs"
    by (simp add: is_record_todo_value)
  moreover have "map_world normalize_entry ?xs ?w = (ts, ?w)"
    using assms(3) by (simp add: map_world_saved)
  moreover have "filter has_text ts = ts"
    using assms(3) by (simp add: filter_id_conv)
  ultimately show ?thesis
    by (simp add: load_array [OF st])
qed

text \<open>
  The two items of the spec's scenario, saved and loaded in a browser with empty storage.
\<close>

theorem save_load_roundtrip_witness:
  "\<not> storage_denied (browser Map.empty) \<and> \<not> storage_full (browser Map.empty) \<and>
   has_text (item ''b'' ''Walk dog'' 2) \<and> finite_number (createdAt (item ''b'' ''Walk dog'' 2)) \<and>
   has_text (item ''a'' ''Buy milk'' 1) \<and> finite_number (createdAt (item ''a'' ''Buy milk'' 1)) \<and>
   fst (loadTodosFromStorage (saveTodosToStorage (browser Map.empty)
          [item ''b'' ''Walk dog'' 2, item ''a'' ''Buy milk'' 1]))
     = [item ''b'' ''Walk dog'' 2, item ''a'' ''Buy milk'' 1]"
proof -
  have h1: "\<not> storage_denied (browser Map.empty)" and h2: "\<not> storage_full (browser Map.empty)"
    by (simp_all add: browser_def)
  have h3: "\<forall>t\<in>set [item ''b'' ''Walk dog'' 2, item ''a'' ''Buy milk'' 1].
              has_text t \<and> finite_number (createdAt t)"
    by (simp add: item_def has_text_def finite_number_def trim_def is_space_def)
  show ?thesis using h1 h2 h3 save_load_roundtrip [OF h1 h2 h3] by simp
qed

text \<open>
  The claim as written asks only for a numeric \<open>createdAt\<close>. \<open>Infinity\<close> is a number
  (a stored \<open>1e999\<close> decodes to it); \<open>JSON.stringify\<close> writes it as \<open>null\<close>, and the next
  load puts the current time in its place.
\<close>

theorem save_load_infinity_counterexample:
  "has_text \<lparr>todo_id = ''a'', todo_text = ''x'', createdAt = PosInfinity\<rparr> \<and>
   typeof (Some (JNumber PosInfinity)) = ''number'' \<and>
   \<not> storage_denied (browser Map.empty) \<and> \<not> storage_full (browser Map.empty) \<and>
   fst (loadTodosFromStorage (saveTodosToStorage (browser Map.empty)
          [\<lparr>todo_id = ''a'', todo_text = ''x'', createdAt = PosInfinity\<rparr>]))
     = [\<lparr>todo_id = ''a'', todo_text = ''x'', createdAt = Finite 1700000000000\<rparr>] \<and>
   fst (loadTodosFromStorage (saveTodosToStorage (browser Map.empty)
          [\<lparr>todo_id = ''a'', todo_text = ''x'', createdAt = PosInfinity\<rparr>]))
     \<noteq> [\<lparr>todo_id = ''a'', todo_text = ''x'', createdAt = PosInfinity\<rparr>]"
  by (simp add: loadTodosFromStorage_def saveTodosToStorage_def load_try_def getItem_def setItem_def
        JSON_stringify_def todos_value_def todo_value_def browser_def STORAGE_KEY_def
        normalize_entry_def is_record_def Date_now_def has_text_def trim_def is_space_def)

section \<open>Loading from a storage that holds no list\<close>



text \<open>
  In an array that mixes entries of both kinds, the entries that are not objects are
  dropped one by one, and an object entry with text is loaded.
\<close>

lemma load_mixed_array:
  "fst (loadTodosFromStorage (stored (JArray [JNumber (Finite 1), entry ''a'' ''x'' 1])))
     = [item ''a'' ''x'' 1]"
  by (simp add: loadTodosFromStorage_def load_try_def getItem_def stored_def entry_def item_def
        browser_def STORAGE_KEY_def normalize_entry_def is_record_def has_text_def trim_def is_space_def)

section \<open>The invariants of the list\<close>

text \<open>
  C3 (as amended). Every item of the list has a text whose trimmed form is not empty:
  this holds for the list that \<open>loadTodosFromStorage\<close> returns, whatever the storage
  holds, and every event keeps it. That every text is moreover its own trim is kept by
  every event; it holds for the loaded list when the stored texts are their own trims,
  as they are in what \<open>saveTodosToStorage\<close> wrote from such a list.
\<close>

theorem text_invariant:
  "list_all has_text (fst (loadTodosFromStorage w)) \<and>
   (list_all has_text (todos s) \<longrightarrow> list_all has_text (todos (fst (dispatch ev s w)))) \<and>
   (list_all trimmed_text (todos s) \<longrightarrow> list_all trimmed_text (todos (fst (dispatch ev s w)))) \<and>
   (items w STORAGE_KEY = Some (JSONText (JArray xs)) \<and>
    (\<forall>x\<in>set xs. trim (stored_text x) = stored_text x)
      \<longrightarrow> list_all trimmed_text (fst (loadTodosFromStorage w))) \<and>
   (\<not> storage_denied w \<and> \<not> storage_full w \<and> list_all trimmed_text ts
      \<longrightarrow> list_all trimmed_text (fst (loadTodosFromStorage (saveTodosToStorage w ts))))"
proof (intro conjI impI)
  show "list_all has_text (fst (loadTodosFromStorage w))" by (rule load_has_text)
next
  assume "list_all has_text (todos s)"
  then show "list_all has_text (todos (fst (dispatch ev s w)))"
    by (rule dispatch_preserves [rotated]) (rule has_text_trim)
next
  assume "list_all trimmed_text (todos s)"
  then show "list_all trimmed_text (todos (fst (dispatch ev s w)))"
    by (rule dispatch_preserves [rotated]) (rule trimmed_text_trim)
next
  assume "items w STORAGE_KEY = Some (JSONText (JArray xs)) \<and>
    (\<forall>x\<in>set xs. trim (stored_text x) = stored_text x)"
  then show "list_all trimmed_text (fst (loadTodosFromStorage w))"
    using load_trimmed by blast
next
  assume a: "\<not> storage_denied w \<and> \<not> storage_full w \<and> list_all trimmed_text ts"
  let ?xs = "map (\<lambda>t. serialized (todo_value t)) ts"
  have "items (saveTodosToStorage w ts) STORAGE_KEY = Some (JSONText (JArray ?xs))"
    using a items_after_save by blast
  moreover have "\<forall>x\<in>set ?xs. trim (stored_text x) = stored_text x"
    using a by (auto simp: stored_text_saved list_all_iff trimmed_text_def)
  ultimately show "list_all trimmed_text (fst (loadTodosFromStorage (saveTodosToStorage w ts)))"
    by (rule load_trimmed)
qed

text \<open>
  A stored list of one trimmed item, a submit of a padded text, and a save and load of
  another trimmed item.
\<close>

theorem text_invariant_witness:
  "list_all has_text (fst (loadTodosFromStorage (stored (JArray [entry ''a'' ''Buy milk'' 1])))) \<and>
   list_all has_text (todos ((state0 [item ''a'' ''Buy milk'' 1])\<lparr>newText := '' Walk dog ''\<rparr>)) \<and>
   list_all has_text (todos (fst (dispatch Submit
      ((state0 [item ''a'' ''Buy milk'' 1])\<lparr>newText := '' Walk dog ''\<rparr>)
      (stored (JArray [entry ''a'' ''Buy milk'' 1]))))) \<and>
   list_all trimmed_text (todos ((state0 [item ''a'' ''Buy milk'' 1])\<lparr>newText := '' Walk dog ''\<rparr>)) \<and>
   list_all trimmed_text (todos (fst (dispatch Submit
      ((state0 [item ''a'' ''Buy milk'' 1])\<lparr>newText := '' Walk dog ''\<rparr>)
      (stored (JArray [entry ''a'' ''Buy milk'' 1]))))) \<and>
   items (stored (JArray [entry ''a'' ''Buy milk'' 1])) STORAGE_KEY
     = Some (JSONText (JArray [entry ''a'' ''Buy milk'' 1])) \<and>
   trim (stored_text (entry ''a'' ''Buy milk'' 1)) = stored_text (entry ''a'' ''Buy milk'' 1) \<and>
   list_all trimmed_text (fst (loadTodosFromStorage (stored (JArray [entry ''a'' ''Buy milk'' 1])))) \<and>
   \<not> storage_denied (stored (JArray [entry ''a'' ''Buy milk'' 1])) \<and>
   \<not> storage_full (stored (JArray [entry ''a'' ''Buy milk'' 1])) \<and>
   list_all trimmed_text [item ''b'' ''Walk dog'' 2] \<and>
   list_all trimmed_text (fst (loadTodosFromStorage
      (saveTodosToStorage (stored (JArray [entry ''a'' ''Buy milk'' 1])) [item ''b'' ''Walk dog'' 2])))"
proof -
  let ?w = "stored (JArray [entry ''a'' ''Buy milk'' 1])"
  let ?s = "(state0 [item ''a'' ''Buy milk'' 1])\<lparr>newText := '' Walk dog ''\<rparr>"
  have t: "trim ''Buy milk'' = ''Buy milk''" "trim ''Walk dog'' = ''Walk dog''"
    by (simp_all add: trim_def is_space_def)
  have h1: "list_all has_text (todos ?s)" "list_all trimmed_text (todos ?s)"
    by (simp_all add: state0_def item_def has_text_def trimmed_text_def t)
  have h2: "items ?w STORAGE_KEY = Some (JSONText (JArray [entry ''a'' ''Buy milk'' 1]))"
    "\<not> storage_denied ?w" "\<not> storage_full ?w"
    by (simp_all add: stored_def browser_def)
  have h3: "trim (stored_text (entry ''a'' ''Buy milk'' 1)) = stored_text (entry ''a'' ''Buy milk'' 1)"
    by (simp add: stored_text_def entry_def t)
  then have h3': "\<forall>x\<in>set [entry ''a'' ''Buy milk'' 1]. trim (stored_text x) = stored_text x"
    by simp
  have h4: "list_all trimmed_text [item ''b'' ''Walk dog'' 2]"
    by (simp add: item_def trimmed_text_def t)
  from text_invariant [where w = "?w" and s = "?s" and ev = Submit
      and xs = "[entry ''a'' ''Buy milk'' 1]" and ts = "[item ''b'' ''Walk dog'' 2]"]
    h1 h2 h3 h3' h4
  show ?thesis by blast
qed

text \<open>
  The claim as written asks that every loaded text is its own trim. The second filter of
  \<open>loadTodosFromStorage\<close> tests the trimmed text and keeps the stored one.
\<close>

theorem load_untrimmed_counterexample:
  "fst (loadTodosFromStorage (stored (JArray [entry ''a'' '' x '' 1]))) = [item ''a'' '' x '' 1] \<and>
   trim (todo_text (item ''a'' '' x '' 1)) = ''x'' \<and>
   \<not> list_all trimmed_text (fst (loadTodosFromStorage (stored (JArray [entry ''a'' '' x '' 1]))))"
  by (simp add: loadTodosFromStorage_def load_try_def getItem_def stored_def entry_def item_def
        browser_def STORAGE_KEY_def normalize_entry_def is_record_def has_text_def trimmed_text_def
        trim_def is_space_def)

text \<open>
  C4 (as amended). The ids of the list loaded from a stored array are pairwise distinct
  exactly when the ids have no repetition at their sources: the string ids stored in the
  entries that pass both filters are pairwise distinct, the ids that \<open>cryptoRandomId\<close>
  returns for the entries that pass and store no string id are pairwise distinct, and
  no id of the one kind is an id of the other. With no stored array the loaded list is
  empty. Every event keeps the ids pairwise distinct, a submit provided that the id
  \<open>cryptoRandomId\<close> returns is not in the list.
\<close>

theorem ids_invariant:
  "(items w STORAGE_KEY = Some (JSONText (JArray xs)) \<and> \<not> storage_denied w
      \<longrightarrow> (distinct (ids (fst (loadTodosFromStorage w))) \<longleftrightarrow>
             distinct (kept_ids xs) \<and> distinct (drawn_ids xs w) \<and>
             set (kept_ids xs) \<inter> set (drawn_ids xs w) = {})) \<and>
   (storage_denied w \<or> (\<forall>xs. items w STORAGE_KEY \<noteq> Some (JSONText (JArray xs)))
      \<longrightarrow> distinct (ids (fst (loadTodosFromStorage w)))) \<and>
   (distinct (ids (todos s)) \<and>
    (ev = Submit \<longrightarrow> fst (cryptoRandomId w) \<notin> set (ids (todos s)))
      \<longrightarrow> distinct (ids (todos (fst (dispatch ev s w)))))"
proof (intro conjI impI)
  assume "items w STORAGE_KEY = Some (JSONText (JArray xs)) \<and> \<not> storage_denied w"
  then show "distinct (ids (fst (loadTodosFromStorage w))) \<longleftrightarrow>
             distinct (kept_ids xs) \<and> distinct (drawn_ids xs w) \<and>
             set (kept_ids xs) \<inter> set (drawn_ids xs w) = {}"
    using load_ids_exact by blast
next
  assume "storage_denied w \<or> (\<forall>xs. items w STORAGE_KEY \<noteq> Some (JSONText (JArray xs)))"
  then show "distinct (ids (fst (loadTodosFromStorage w)))"
    by (simp add: load_other ids_def)
next
  assume "distinct (ids (todos s)) \<and>
    (ev = Submit \<longrightarrow> fst (cryptoRandomId w) \<notin> set (ids (todos s)))"
  then show "distinct (ids (todos (fst (dispatch ev s w))))"
    using dispatch_ids by blast
qed

text \<open>
  A stored array of four entries: ids \<open>a\<close> and \<open>b\<close> are kept, \<open>u0\<close> is drawn for the
  entry without id, and the entry without text is dropped. Then a browser with empty
  storage, and a submit that draws the id \<open>u0\<close>.
\<close>

theorem ids_invariant_witness:
  "items (stored (JArray [entry ''a'' ''x'' 1, JObject [(''text'', JString ''y'')],
            JObject [(''id'', JString ''a'')], entry ''b'' ''z'' 2])) STORAGE_KEY
     = Some (JSONText (JArray [entry ''a'' ''x'' 1, JObject [(''text'', JString ''y'')],
            JObject [(''id'', JString ''a'')], entry ''b'' ''z'' 2])) \<and>
   \<not> storage_denied (stored (JArray [entry ''a'' ''x'' 1, JObject [(''text'', JString ''y'')],
            JObject [(''id'', JString ''a'')], entry ''b'' ''z'' 2])) \<and>
   kept_ids [entry ''a'' ''x'' 1, JObject [(''text'', JString ''y'')],
            JObject [(''id'', JString ''a'')], entry ''b'' ''z'' 2] = [''a'', ''b''] \<and>
   drawn_ids [entry ''a'' ''x'' 1, JObject [(''text'', JString ''y'')],
            JObject [(''id'', JString ''a'')], entry ''b'' ''z'' 2]
      (stored (JArray [entry ''a'' ''x'' 1, JObject [(''text'', JString ''y'')],
            JObject [(''id'', JString ''a'')], entry ''b'' ''z'' 2])) = [''u0''] \<and>
   ids (fst (loadTodosFromStorage (stored (JArray [entry ''a'' ''x'' 1,
            JObject [(''text'', JString ''y'')], JObject [(''id'', JString ''a'')],
            entry ''b'' ''z'' 2])))) = [''a'', ''u0'', ''b''] \<and>
   distinct (ids (fst (loadTodosFromStorage (stored (JArray [entry ''a'' ''x'' 1,
            JObject [(''text'', JString ''y'')], JObject [(''id'', JString ''a'')],
            entry ''b'' ''z'' 2]))))) \<and>
   items (browser Map.empty) STORAGE_KEY = None \<and>
   distinct (ids (fst (loadTodosFromStorage (browser Map.empty)))) \<and>
   distinct (ids (todos ((state0 [item ''a'' ''x'' 1])\<lparr>newText := ''z''\<rparr>))) \<and>
   fst (cryptoRandomId (browser Map.empty)) = ''u0'' \<and>
   ''u0'' \<notin> set (ids (todos ((state0 [item ''a'' ''x'' 1])\<lparr>newText := ''z''\<rparr>))) \<and>
   distinct (ids (todos (fst (dispatch Submit ((state0 [item ''a'' ''x'' 1])\<lparr>newText := ''z''\<rparr>)
      (browser Map.empty)))))"
proof -
  let ?xs = "[entry ''a'' ''x'' 1, JObject [(''text'', JString ''y'')],
            JObject [(''id'', JString ''a'')], entry ''b'' ''z'' 2]"
  let ?s = "(state0 [item ''a'' ''x'' 1])\<lparr>newText := ''z''\<rparr>"
  have t: "trim ''x'' = ''x''" "trim ''y'' = ''y''" "trim ''z'' = ''z''" "trim [] = []"
    by (simp_all add: trim_def is_space_def)
  have h1: "items (stored (JArray ?xs)) STORAGE_KEY = Some (JSONText (JArray ?xs))"
    "\<not> storage_denied (stored (JArray ?xs))"
    by (simp_all add: stored_def browser_def)
  have k: "kept_ids ?xs = [''a'', ''b'']"
    by (simp add: kept_ids_def survives_def is_record_def stored_text_def stored_id_def entry_def t)
  have d: "drawn_ids ?xs (stored (JArray ?xs)) = [''u0'']"
    by (simp add: survives_def is_record_def stored_text_def stored_id_def entry_def t
        cryptoRandomId_def randomUUID_def normalize_entry_def stored_def browser_def
        show_nat.simps)
  have l: "ids (fst (loadTodosFromStorage (stored (JArray ?xs)))) = [''a'', ''u0'', ''b'']"
    by (simp add: loadTodosFromStorage_def load_try_def getItem_def stored_def entry_def
        browser_def STORAGE_KEY_def normalize_entry_def is_record_def has_text_def ids_def t
        cryptoRandomId_def randomUUID_def Date_now_def show_nat.simps)
  have h2: "items (browser Map.empty) STORAGE_KEY = None" by (simp add: browser_def)
  then have h2': "storage_denied (browser Map.empty)
      \<or> (\<forall>xs. items (browser Map.empty) STORAGE_KEY \<noteq> Some (JSONText (JArray xs)))"
    by simp
  have h4: "distinct (ids (todos ?s))"
    by (simp add: state0_def ids_def)
  have h5: "fst (cryptoRandomId (browser Map.empty)) = ''u0''"
    by (simp add: cryptoRandomId_def randomUUID_def browser_def show_nat.simps)
  have h6: "''u0'' \<notin> set (ids (todos ?s))"
    by (simp add: state0_def ids_def item_def)
  from h5 h6 have h7: "Submit = Submit \<longrightarrow> fst (cryptoRandomId (browser Map.empty)) \<notin> set (ids (todos ?s))"
    by simp
  have fresh: "distinct (kept_ids ?xs) \<and> distinct (drawn_ids ?xs (stored (JArray ?xs))) \<and>
      set (kept_ids ?xs) \<inter> set (drawn_ids ?xs (stored (JArray ?xs))) = {}"
    unfolding k d by simp
  from ids_invariant [where w = "stored (JArray ?xs)" and xs = "?xs"] h1 fresh
  have c1: "distinct (ids (fst (loadTodosFromStorage (stored (JArray ?xs)))))" by blast
  from ids_invariant [where w = "browser Map.empty"] h2'
  have c2: "distinct (ids (fst (loadTodosFromStorage (browser Map.empty))))" by blast
  from ids_invariant [where w = "browser Map.empty" and s = "?s" and ev = Submit] h4 h7
  have c3: "distinct (ids (todos (fst (dispatch Submit ?s (browser Map.empty)))))" by blast
  from h1 k d l h2 h4 h5 h6 c1 c2 c3 show ?thesis by blast
qed

text \<open>
  The claim as written covers every stored payload. Stored ids are kept as they are, and
  nothing compares them.
\<close>

theorem load_duplicate_ids_counterexample:
  "fst (loadTodosFromStorage (stored (JArray [entry ''a'' ''x'' 1, entry ''a'' ''y'' 2])))
     = [item ''a'' ''x'' 1, item ''a'' ''y'' 2] \<and>
   \<not> distinct (ids (fst (loadTodosFromStorage (stored (JArray [entry ''a'' ''x'' 1, entry ''a'' ''y'' 2])))))"
  by (simp add: loadTodosFromStorage_def load_try_def getItem_def stored_def entry_def item_def
        browser_def STORAGE_KEY_def normalize_entry_def is_record_def has_text_def ids_def
        trim_def is_space_def)

section \<open>Delete\<close>

text \<open>
  C5 (as amended). \<open>deleteTodo i\<close> removes every item whose id is \<open>i\<close>: exactly one
  item when the ids of the list are pairwise distinct and \<open>i\<close> is among them, none when no
  item has that id. When \<open>i\<close> is the id being edited, edit mode is left and the edit
  buffer emptied; otherwise both stay. The add field and the theme stay.
\<close>

theorem deleteTodo_effect:
  "todos (deleteTodo i s) = filter (\<lambda>t. todo_id t \<noteq> i) (todos s) \<and>
   (distinct (ids (todos s)) \<and> i \<in> set (ids (todos s)) \<longrightarrow>
      (\<exists>xs t ys. todos s = xs @ t # ys \<and> todo_id t = i \<and> todos (deleteTodo i s) = xs @ ys)) \<and>
   (i \<notin> set (ids (todos s)) \<longrightarrow> todos (deleteTodo i s) = todos s) \<and>
   (editingId s = Some i \<longrightarrow>
      editingId (deleteTodo i s) = None \<and> editingText (deleteTodo i s) = []) \<and>
   (editingId s \<noteq> Some i \<longrightarrow>
      editingId (deleteTodo i s) = editingId s \<and> editingText (deleteTodo i s) = editingText s) \<and>
   newText (deleteTodo i s) = newText s \<and> theme (deleteTodo i s) = theme s"
proof (intro conjI impI)
  show "todos (deleteTodo i s) = filter (\<lambda>t. todo_id t \<noteq> i) (todos s)"
    by (rule deleteTodo_todos)
next
  assume "distinct (ids (todos s)) \<and> i \<in> set (ids (todos s))"
  then show "\<exists>xs t ys. todos s = xs @ t # ys \<and> todo_id t = i \<and> todos (deleteTodo i s) = xs @ ys"
    using filter_out_distinct [of "todos s" i] by (simp add: deleteTodo_todos)
next
  assume "i \<notin> set (ids (todos s))"
  then show "todos (deleteTodo i s) = todos s"
    by (auto simp: deleteTodo_todos ids_def filter_id_conv)
qed (simp_all add: deleteTodo_def cancelEdit_def Let_def)

text \<open>
  Deleting the item being edited, and deleting an id that is not in the list.
\<close>

theorem deleteTodo_effect_witness:
  "distinct (ids (todos ((state0 [item ''b'' ''y'' 2, item ''a'' ''x'' 1])\<lparr>editingId := Some ''a'', editingText := ''x''\<rparr>))) \<and>
   ''a'' \<in> set (ids (todos ((state0 [item ''b'' ''y'' 2, item ''a'' ''x'' 1])\<lparr>editingId := Some ''a'', editingText := ''x''\<rparr>))) \<and>
   todos (deleteTodo ''a'' ((state0 [item ''b'' ''y'' 2, item ''a'' ''x'' 1])\<lparr>editingId := Some ''a'', editingText := ''x''\<rparr>))
     = [item ''b'' ''y'' 2] \<and>
   editingId ((state0 [item ''b'' ''y'' 2, item ''a'' ''x'' 1])\<lparr>editingId := Some ''a'', editingText := ''x''\<rparr>) = Some ''a'' \<and>
   editingId (deleteTodo ''a'' ((state0 [item ''b'' ''y'' 2, item ''a'' ''x'' 1])\<lparr>editingId := Some ''a'', editingText := ''x''\<rparr>)) = None \<and>
   editingText (deleteTodo ''a'' ((state0 [item ''b'' ''y'' 2, item ''a'' ''x'' 1])\<lparr>editingId := Some ''a'', editingText := ''x''\<rparr>)) = [] \<and>
   ''c'' \<notin> set (ids (todos ((state0 [item ''b'' ''y'' 2, item ''a'' ''x'' 1])\<lparr>editingId := Some ''a'', editingText := ''x''\<rparr>))) \<and>
   editingId ((state0 [item ''b'' ''y'' 2, item ''a'' ''x'' 1])\<lparr>editingId := Some ''a'', editingText := ''x''\<rparr>) \<noteq> Some ''c'' \<and>
   todos (deleteTodo ''c'' ((state0 [item ''b'' ''y'' 2, item ''a'' ''x'' 1])\<lparr>editingId := Some ''a'', editingText := ''x''\<rparr>))
     = [item ''b'' ''y'' 2, item ''a'' ''x'' 1] \<and>
   editingId (deleteTodo ''c'' ((state0 [item ''b'' ''y'' 2, item ''a'' ''x'' 1])\<lparr>editingId := Some ''a'', editingText := ''x''\<rparr>)) = Some ''a'' \<and>
   editingText (deleteTodo ''c'' ((state0 [item ''b'' ''y'' 2, item ''a'' ''x'' 1])\<lparr>editingId := Some ''a'', editingText := ''x''\<rparr>)) = ''x''"
proof -
  let ?s = "(state0 [item ''b'' ''y'' 2, item ''a'' ''x'' 1])\<lparr>editingId := Some ''a'', editingText := ''x''\<rparr>"
  have h: "distinct (ids (todos ?s))" "''a'' \<in> set (ids (todos ?s))" "editingId ?s = Some ''a''"
    "''c'' \<notin> set (ids (todos ?s))" "editingId ?s \<noteq> Some ''c''"
    by (simp_all add: state0_def ids_def item_def)
  have ts: "todos ?s = [item ''b'' ''y'' 2, item ''a'' ''x'' 1]" "editingText ?s = ''x''"
    by (simp_all add: state0_def)
  note A = deleteTodo_effect [where i = "''a''" and s = "?s"]
  note C = deleteTodo_effect [where i = "''c''" and s = "?s"]
  have a: "todos (deleteTodo ''a'' ?s) = [item ''b'' ''y'' 2]"
    using A [THEN conjunct1] by (simp add: state0_def item_def)
  from A h have a': "editingId (deleteTodo ''a'' ?s) = None \<and> editingText (deleteTodo ''a'' ?s) = []"
    by blast
  from C h have c: "todos (deleteTodo ''c'' ?s) = todos ?s
     \<and> editingId (deleteTodo ''c'' ?s) = editingId ?s \<and> editingText (deleteTodo ''c'' ?s) = editingText ?s"
    by blast
  from h a a' c ts show ?thesis by simp
qed

text \<open>
  The claim as written covers every list. The list loaded from a stored payload with a
  repeated id holds two items with that id, and one delete removes both.
\<close>

theorem deleteTodo_duplicates_counterexample:
  "todos (fst (init (stored (JArray [entry ''a'' ''x'' 1, entry ''a'' ''y'' 2, entry ''b'' ''z'' 3]))))
     = [item ''a'' ''x'' 1, item ''a'' ''y'' 2, item ''b'' ''z'' 3] \<and>
   todos (deleteTodo ''a''
      (fst (init (stored (JArray [entry ''a'' ''x'' 1, entry ''a'' ''y'' 2, entry ''b'' ''z'' 3])))))
     = [item ''b'' ''z'' 3] \<and>
   ''a'' \<in> set (ids (todos
      (fst (init (stored (JArray [entry ''a'' ''x'' 1, entry ''a'' ''y'' 2, entry ''b'' ''z'' 3])))))) \<and>
   length (todos (deleteTodo ''a''
      (fst (init (stored (JArray [entry ''a'' ''x'' 1, entry ''a'' ''y'' 2, entry ''b'' ''z'' 3]))))))
     \<noteq> length (todos
      (fst (init (stored (JArray [entry ''a'' ''x'' 1, entry ''a'' ''y'' 2, entry ''b'' ''z'' 3]))))) - 1"
  by (simp add: init_def deleteTodo_def ids_def loadTodosFromStorage_def load_try_def getItem_def stored_def
        entry_def item_def browser_def STORAGE_KEY_def normalize_entry_def is_record_def
        has_text_def trim_def is_space_def)

section \<open>Add\<close>

text \<open>
  C6. Starting from the empty list, after adding texts none of which is blank, one after
  the other, the list is as long as the number of texts added and holds their trims,
  the last added first: each add puts its new item, with the trimmed text, in front of
  the list.
\<close>

theorem add_sequence:
  assumes "todos s = []" and "\<forall>v\<in>set vs. trim v \<noteq> []"
  shows "length (todos (fst (run (adds vs) s w))) = length vs \<and>
         map todo_text (todos (fst (run (adds vs) s w))) = rev (map trim vs) \<and>
         (\<forall>v\<in>set vs. \<forall>s' w'. \<exists>t. todos (fst (run (adds [v]) s' w')) = t # todos s'
                                  \<and> todo_text t = trim v)"
proof -
  from run_adds [OF assms(2)] obtain news
    where n: "todos (fst (run (adds vs) s w)) = news @ todos s" "map todo_text news = rev (map trim vs)"
    by blast
  from n(2) have "length news = length vs"
    by (metis length_map length_rev)
  with n assms(1) have "length (todos (fst (run (adds vs) s w))) = length vs"
    "map todo_text (todos (fst (run (adds vs) s w))) = rev (map trim vs)"
    by simp_all
  moreover have "\<forall>v\<in>set vs. \<forall>s' w'. \<exists>t. todos (fst (run (adds [v]) s' w')) = t # todos s'
                                  \<and> todo_text t = trim v"
    using assms(2) run_add_one by blast
  ultimately show ?thesis by blast
qed

text \<open>
  The spec's scenario: \<open>Buy milk\<close>, then \<open>Walk dog\<close> typed with spaces around it.
\<close>

theorem add_sequence_witness:
  "todos (state0 []) = [] \<and> trim ''Buy milk'' \<noteq> [] \<and> trim '' Walk dog '' \<noteq> [] \<and>
   length (todos (fst (run (adds [''Buy milk'', '' Walk dog '']) (state0 []) (browser Map.empty)))) = 2 \<and>
   map todo_text (todos (fst (run (adds [''Buy milk'', '' Walk dog '']) (state0 []) (browser Map.empty))))
     = [''Walk dog'', ''Buy milk'']"
proof -
  have h1: "todos (state0 []) = []" by (simp add: state0_def)
  have t: "trim ''Buy milk'' = ''Buy milk''" "trim '' Walk dog '' = ''Walk dog''"
    by (simp_all add: trim_def is_space_def)
  then have h2: "\<forall>v\<in>set [''Buy milk'', '' Walk dog '']. trim v \<noteq> []" by simp
  from add_sequence [OF h1 h2, of "browser Map.empty"] h1 t show ?thesis by simp
qed

text \<open>
  C9. When the add field trims to the empty string, \<open>addTodo\<close> changes nothing: the
  list and the add field stay as they are.
\<close>

theorem addTodo_blank_noop:
  assumes "trim (newText s) = []"
  shows "addTodo s w = (s, w) \<and> dispatch Submit s w = (s, w)"
  using assms by (simp add: addTodo_blank)

theorem addTodo_blank_noop_witness:
  "trim (newText ((state0 [item ''a'' ''Buy milk'' 1])\<lparr>newText := ''   ''\<rparr>)) = [] \<and>
   fst (addTodo ((state0 [item ''a'' ''Buy milk'' 1])\<lparr>newText := ''   ''\<rparr>) (browser Map.empty))
     = \<lparr>theme = ''light'', todos = [item ''a'' ''Buy milk'' 1], newText = ''   '',
        editingId = None, editingText = []\<rparr>"
proof -
  let ?s = "(state0 [item ''a'' ''Buy milk'' 1])\<lparr>newText := ''   ''\<rparr>"
  have h: "trim (newText ?s) = []" by (simp add: trim_def is_space_def)
  from addTodo_blank_noop [OF h, of "browser Map.empty"] h show ?thesis by (simp add: state0_def)
qed

section \<open>Edit\<close>

text \<open>
  C7. When the edit buffer trims to the empty string, \<open>saveEdit\<close> changes nothing,
  from the Save button as well as from the Enter key: the list, the id being edited and
  the edit buffer stay as they are.
\<close>

theorem saveEdit_blank_noop:
  assumes "trim (editingText s) = []"
  shows "saveEdit i s = s \<and> dispatch (ClickSave i) s w = (s, w) \<and>
         dispatch (KeyDown ''Enter'' i) s w = (s, w)"
  using assms by (simp add: saveEdit_blank onEditKeyDown_def)

theorem saveEdit_blank_noop_witness:
  "trim (editingText ((state0 [item ''a'' ''Buy milk'' 1])\<lparr>editingId := Some ''a'', editingText := ''  ''\<rparr>)) = [] \<and>
   saveEdit ''a'' ((state0 [item ''a'' ''Buy milk'' 1])\<lparr>editingId := Some ''a'', editingText := ''  ''\<rparr>)
     = \<lparr>theme = ''light'', todos = [item ''a'' ''Buy milk'' 1], newText = [],
        editingId = Some ''a'', editingText = ''  ''\<rparr>"
proof -
  let ?s = "(state0 [item ''a'' ''Buy milk'' 1])\<lparr>editingId := Some ''a'', editingText := ''  ''\<rparr>"
  have h: "trim (editingText ?s) = []" by (simp add: trim_def is_space_def)
  from saveEdit_blank_noop [OF h, of "''a''"] h show ?thesis by (simp add: state0_def)
qed

text \<open>
  C8 (as amended). When the list holds an item with id \<open>i\<close> and the edit buffer does not
  trim to the empty string: if the ids of the list are pairwise distinct, \<open>saveEdit i\<close>
  replaces the text of that one item by the trimmed buffer and leaves every other item
  as it is. With or without distinct ids, every item with id \<open>i\<close> gets the trimmed buffer
  as its text and every item with another id is left as it is; the list keeps its length
  and its order, every id and every \<open>createdAt\<close>; edit mode is left and the edit buffer
  emptied.
\<close>

theorem saveEdit_frame:
  assumes "i \<in> set (ids (todos s))" and "trim (editingText s) \<noteq> []"
  shows "(distinct (ids (todos s)) \<longrightarrow>
           (\<exists>xs t ys. todos s = xs @ t # ys \<and> todo_id t = i \<and>
              todos (saveEdit i s) = xs @ t\<lparr>todo_text := trim (editingText s)\<rparr> # ys)) \<and>
         length (todos (saveEdit i s)) = length (todos s) \<and>
         (\<forall>k<length (todos s).
            todos (saveEdit i s) ! k =
              (if todo_id (todos s ! k) = i
               then (todos s ! k)\<lparr>todo_text := trim (editingText s)\<rparr>
               else todos s ! k)) \<and>
         (\<exists>k<length (todos s). todo_id (todos s ! k) = i) \<and>
         map todo_id (todos (saveEdit i s)) = map todo_id (todos s) \<and>
         map createdAt (todos (saveEdit i s)) = map createdAt (todos s) \<and>
         editingId (saveEdit i s) = None \<and> editingText (saveEdit i s) = [] \<and>
         newText (saveEdit i s) = newText s \<and> theme (saveEdit i s) = theme s"
proof -
  let ?f = "\<lambda>t. if todo_id t = i then t\<lparr>todo_text := trim (editingText s)\<rparr> else t"
  have ts: "todos (saveEdit i s) = map ?f (todos s)"
    using assms(2) by (rule saveEdit_todos)
  have one: "distinct (ids (todos s)) \<longrightarrow>
           (\<exists>xs t ys. todos s = xs @ t # ys \<and> todo_id t = i \<and>
              todos (saveEdit i s) = xs @ t\<lparr>todo_text := trim (editingText s)\<rparr> # ys)"
    unfolding ts using retext_distinct [OF _ assms(1)] by blast
  have "map todo_id (map ?f (todos s)) = map todo_id (todos s)"
    "map createdAt (map ?f (todos s)) = map createdAt (todos s)"
    by (rule retext_fields)+
  moreover have "\<exists>k<length (todos s). todo_id (todos s ! k) = i"
    using assms(1) by (auto simp: ids_def in_set_conv_nth)
  moreover have "editingId (saveEdit i s) = None \<and> editingText (saveEdit i s) = [] \<and>
         newText (saveEdit i s) = newText s \<and> theme (saveEdit i s) = theme s"
    using assms(2) by (simp add: saveEdit_def Let_def)
  ultimately have rest: "length (todos (saveEdit i s)) = length (todos s) \<and>
         (\<forall>k<length (todos s).
            todos (saveEdit i s) ! k =
              (if todo_id (todos s ! k) = i
               then (todos s ! k)\<lparr>todo_text := trim (editingText s)\<rparr>
               else todos s ! k)) \<and>
         (\<exists>k<length (todos s). todo_id (todos s ! k) = i) \<and>
         map todo_id (todos (saveEdit i s)) = map todo_id (todos s) \<and>
         map createdAt (todos (saveEdit i s)) = map createdAt (todos s) \<and>
         editingId (saveEdit i s) = None \<and> editingText (saveEdit i s) = [] \<and>
         newText (saveEdit i s) = newText s \<and> theme (saveEdit i s) = theme s"
    by (simp add: ts)
  from one rest show ?thesis by (rule conjI)
qed

text \<open>
  Editing the second of two items with distinct ids.
\<close>

theorem saveEdit_frame_witness:
  "''a'' \<in> set (ids (todos ((state0 [item ''b'' ''Walk dog'' 2, item ''a'' ''Buy milk'' 1])
                  \<lparr>editingId := Some ''a'', editingText := '' Buy oat milk ''\<rparr>))) \<and>
   trim (editingText ((state0 [item ''b'' ''Walk dog'' 2, item ''a'' ''Buy milk'' 1])
                  \<lparr>editingId := Some ''a'', editingText := '' Buy oat milk ''\<rparr>)) = ''Buy oat milk'' \<and>
   distinct (ids (todos ((state0 [item ''b'' ''Walk dog'' 2, item ''a'' ''Buy milk'' 1])
                  \<lparr>editingId := Some ''a'', editingText := '' Buy oat milk ''\<rparr>))) \<and>
   (\<exists>xs t ys.
      todos ((state0 [item ''b'' ''Walk dog'' 2, item ''a'' ''Buy milk'' 1])
                  \<lparr>editingId := Some ''a'', editingText := '' Buy oat milk ''\<rparr>) = xs @ t # ys \<and>
      todo_id t = ''a'' \<and>
      todos (saveEdit ''a'' ((state0 [item ''b'' ''Walk dog'' 2, item ''a'' ''Buy milk'' 1])
                  \<lparr>editingId := Some ''a'', editingText := '' Buy oat milk ''\<rparr>))
        = xs @ t\<lparr>todo_text := ''Buy oat milk''\<rparr> # ys) \<and>
   saveEdit ''a'' ((state0 [item ''b'' ''Walk dog'' 2, item ''a'' ''Buy milk'' 1])
                  \<lparr>editingId := Some ''a'', editingText := '' Buy oat milk ''\<rparr>)
     = state0 [item ''b'' ''Walk dog'' 2, item ''a'' ''Buy oat milk'' 1] \<and>
   length (todos (saveEdit ''a'' ((state0 [item ''b'' ''Walk dog'' 2, item ''a'' ''Buy milk'' 1])
                  \<lparr>editingId := Some ''a'', editingText := '' Buy oat milk ''\<rparr>))) = 2"
proof -
  let ?s = "(state0 [item ''b'' ''Walk dog'' 2, item ''a'' ''Buy milk'' 1])
                  \<lparr>editingId := Some ''a'', editingText := '' Buy oat milk ''\<rparr>"
  have h1: "''a'' \<in> set (ids (todos ?s))" by (simp add: state0_def ids_def item_def)
  have t: "trim (editingText ?s) = ''Buy oat milk''" by (simp add: trim_def is_space_def)
  then have h2: "trim (editingText ?s) \<noteq> []" by simp
  have h3: "distinct (ids (todos ?s))" by (simp add: state0_def ids_def item_def)
  have v: "saveEdit ''a'' ?s = state0 [item ''b'' ''Walk dog'' 2, item ''a'' ''Buy oat milk'' 1]"
    by (simp add: saveEdit_def state0_def item_def trim_def is_space_def)
  note F = saveEdit_frame [OF h1 h2]
  from F h3 have "\<exists>xs t ys. todos ?s = xs @ t # ys \<and> todo_id t = ''a'' \<and>
      todos (saveEdit ''a'' ?s) = xs @ t\<lparr>todo_text := trim (editingText ?s)\<rparr> # ys"
    by blast
  then have one: "\<exists>xs t ys. todos ?s = xs @ t # ys \<and> todo_id t = ''a'' \<and>
      todos (saveEdit ''a'' ?s) = xs @ t\<lparr>todo_text := ''Buy oat milk''\<rparr> # ys"
    unfolding t .
  from F have "length (todos (saveEdit ''a'' ?s)) = length (todos ?s)"
    by blast
  then have "length (todos (saveEdit ''a'' ?s)) = 2" by (simp add: state0_def)
  with h1 t h3 one v show ?thesis by blast
qed

text \<open>
  The claim as written covers every list. In the list loaded from a stored payload with
  a repeated id, editing one of the two items and saving rewrites both.
\<close>

theorem saveEdit_duplicates_counterexample:
  "todos (fst (init (stored (JArray [entry ''a'' ''x'' 1, entry ''a'' ''y'' 2, entry ''b'' ''w'' 3]))))
     = [item ''a'' ''x'' 1, item ''a'' ''y'' 2, item ''b'' ''w'' 3] \<and>
   ''a'' \<in> set (ids (todos
      (fst (init (stored (JArray [entry ''a'' ''x'' 1, entry ''a'' ''y'' 2, entry ''b'' ''w'' 3])))))) \<and>
   trim ''z'' = ''z'' \<and>
   todos (fst (run [ClickEdit (item ''a'' ''x'' 1), ChangeEdit ''z'', ClickSave ''a'']
      (fst (init (stored (JArray [entry ''a'' ''x'' 1, entry ''a'' ''y'' 2, entry ''b'' ''w'' 3]))))
      (snd (init (stored (JArray [entry ''a'' ''x'' 1, entry ''a'' ''y'' 2, entry ''b'' ''w'' 3]))))))
     = [item ''a'' ''z'' 1, item ''a'' ''z'' 2, item ''b'' ''w'' 3] \<and>
   item ''a'' ''x'' 1 \<noteq> item ''a'' ''z'' 1 \<and> item ''a'' ''y'' 2 \<noteq> item ''a'' ''z'' 2"
  by (simp add: init_def startEdit_def saveEdit_def Let_def loadTodosFromStorage_def load_try_def
        getItem_def stored_def entry_def item_def browser_def STORAGE_KEY_def normalize_entry_def
        is_record_def has_text_def ids_def trim_def is_space_def)

text \<open>
  C10. When no item of the list has id \<open>i\<close> and the edit buffer does not trim to the
  empty string, \<open>saveEdit i\<close> leaves the list as it is, and still leaves edit mode and
  empties the edit buffer: the typed text is lost.
\<close>

theorem saveEdit_unknown_id:
  assumes "i \<notin> set (ids (todos s))" and "trim (editingText s) \<noteq> []"
  shows "todos (saveEdit i s) = todos s \<and> editingId (saveEdit i s) = None \<and>
         editingText (saveEdit i s) = []"
proof -
  from assms(1) have "map (\<lambda>t. if todo_id t = i then t\<lparr>todo_text := trim (editingText s)\<rparr> else t) (todos s)
      = todos s"
    by (rule retext_absent)
  with assms(2) show ?thesis by (simp add: saveEdit_def Let_def)
qed

theorem saveEdit_unknown_id_witness:
  "''gone'' \<notin> set (ids (todos ((state0 [item ''a'' ''Buy milk'' 1])
                  \<lparr>editingId := Some ''gone'', editingText := ''Typed text''\<rparr>))) \<and>
   trim (editingText ((state0 [item ''a'' ''Buy milk'' 1])
                  \<lparr>editingId := Some ''gone'', editingText := ''Typed text''\<rparr>)) = ''Typed text'' \<and>
   saveEdit ''gone'' ((state0 [item ''a'' ''Buy milk'' 1])
                  \<lparr>editingId := Some ''gone'', editingText := ''Typed text''\<rparr>)
     = state0 [item ''a'' ''Buy milk'' 1]"
proof -
  let ?s = "(state0 [item ''a'' ''Buy milk'' 1])\<lparr>editingId := Some ''gone'', editingText := ''Typed text''\<rparr>"
  have h1: "''gone'' \<notin> set (ids (todos ?s))" by (simp add: state0_def ids_def item_def)
  have t: "trim (editingText ?s) = ''Typed text''" by (simp add: trim_def is_space_def)
  then have h2: "trim (editingText ?s) \<noteq> []" by simp
  from saveEdit_unknown_id [OF h1 h2]
  have "saveEdit ''gone'' ?s = state0 [item ''a'' ''Buy milk'' 1]"
    by (simp add: state0_def saveEdit_def trim_def is_space_def)
  with h1 t show ?thesis by blast
qed

end
